theory Spec2Isabelle
  imports Main "HOL-Library.Product_Lexorder"
begin

section \<open>Data model of \<^verbatim>\<open>minesweeper.py\<close>\<close>

text \<open>
  A cell is a tuple \<^verbatim>\<open>(i, j)\<close> of Python integers.  A \<^verbatim>\<open>Sentence\<close> object has the three
  attributes set by \<^verbatim>\<open>Sentence.__init__\<close>; a \<^verbatim>\<open>MinesweeperAI\<close> object has the six attributes
  set by \<^verbatim>\<open>MinesweeperAI.__init__\<close>, the dictionary \<^verbatim>\<open>knowledge\<close> being a map from the
  opened cell to its sentence.
\<close>

type_synonym cell = "int \<times> int"

datatype error = NotImplementedError | TypeError

record sentence =
  cells :: "cell set"
  count :: int
  is_mine :: bool

record ai =
  height :: int
  width :: int
  moves_made :: "cell set"
  mines :: "cell set"
  safes :: "cell set"
  knowledge :: "cell \<rightharpoonup> sentence"

text \<open>
  Python does not fix the order in which a \<^verbatim>\<open>for\<close> loop visits the elements of a set; it
  only visits each element once.  A \<open>set_order\<close> is one such choice of order, and every
  operation that iterates over a set takes it as a parameter.
\<close>

typedef 'a set_order =
  "{f :: 'a set \<Rightarrow> 'a list. \<forall>S. finite S \<longrightarrow> set (f S) = S \<and> distinct (f S)}"
proof
  show "(\<lambda>S. SOME xs. set xs = S \<and> distinct xs)
        \<in> {f :: 'a set \<Rightarrow> 'a list. \<forall>S. finite S \<longrightarrow> set (f S) = S \<and> distinct (f S)}"
    using someI_ex [OF finite_distinct_list] by fast
qed

setup_lifting type_definition_set_order

lift_definition elems :: "'a set_order \<Rightarrow> 'a set \<Rightarrow> 'a list"
  is "\<lambda>f S. f S" .

lift_definition ascending :: "'a::linorder set_order"
  is "\<lambda>S. sorted_list_of_set S"
  by simp

lift_definition descending :: "'a::linorder set_order"
  is "\<lambda>S. rev (sorted_list_of_set S)"
  by simp

text \<open>\<^verbatim>\<open>range(a, b)\<close> on integers.\<close>

definition py_range :: "int \<Rightarrow> int \<Rightarrow> int list" where
  "py_range a b = [a .. b - 1]"

subsection \<open>Class \<^verbatim>\<open>Sentence\<close>\<close>

text \<open>\<^verbatim>\<open>Sentence.__init__(cells, count, is_mine)\<close>.\<close>

definition Sentence :: "cell set \<Rightarrow> int \<Rightarrow> bool \<Rightarrow> sentence" where
  "Sentence cs n m = \<lparr>cells = cs, count = n, is_mine = m\<rparr>"

text \<open>\<^verbatim>\<open>Sentence.known_mines\<close>: the body is the single statement
  \<^verbatim>\<open>raise NotImplementedError\<close>.\<close>

definition known_mines :: "sentence \<Rightarrow> error + cell set" where
  "known_mines s = Inl NotImplementedError"

subsection \<open>Class \<^verbatim>\<open>MinesweeperAI\<close>\<close>

text \<open>\<^verbatim>\<open>MinesweeperAI.__init__(height, width)\<close>.\<close>

definition MinesweeperAI :: "int \<Rightarrow> int \<Rightarrow> ai" where
  "MinesweeperAI h w =
     \<lparr>height = h, width = w, moves_made = {}, mines = {}, safes = {}, knowledge = Map.empty\<rparr>"

text \<open>\<^verbatim>\<open>MinesweeperAI.mark_safe(cell)\<close>: \<^verbatim>\<open>self.safes.add(cell)\<close>.\<close>

definition mark_safe :: "cell \<Rightarrow> ai \<Rightarrow> ai" where
  "mark_safe c s = s\<lparr>safes := insert c (safes s)\<rparr>"

text \<open>
  The local variables of one activation of \<^verbatim>\<open>add_knowledge\<close> that its double loop
  updates, together with the agent: \<^verbatim>\<open>count\<close>, \<^verbatim>\<open>mines\<close> and \<^verbatim>\<open>neighbors\<close>.
\<close>

record frame =
  agent :: ai
  count_v :: int
  mines_v :: "cell set"
  neighbors_v :: "cell set"

text \<open>
  The body of the double loop of \<^verbatim>\<open>add_knowledge\<close> (lines 189 to 232) for the neighbor
  \<open>n = (i, j)\<close>.  The sentence object of the dictionary is mutated in place, which is the
  update of the map at \<open>n\<close>.
\<close>

definition visit :: "cell set_order \<Rightarrow> cell \<Rightarrow> bool \<Rightarrow> cell \<Rightarrow> frame \<Rightarrow> frame" where
  "visit ord c m n f =
    (let f1 = f\<lparr>neighbors_v := insert n (neighbors_v f)\<rparr> in
     case knowledge (agent f1) n of
       None \<Rightarrow> f1
     | Some sen \<Rightarrow>
        (let f2 = (if is_mine sen \<and> count_v f1 \<noteq> 0
                   then f1\<lparr>count_v := count_v f1 - 1\<rparr> else f1) in
         if c \<in> cells sen then
           (let sen1 = sen\<lparr>cells := cells sen - {c}\<rparr> in
            if m then
              (let sen2 = sen1\<lparr>count := count sen1 - 1\<rparr>;
                   a = (agent f2)\<lparr>knowledge := (knowledge (agent f2))(n \<mapsto> sen2)\<rparr> in
               if count sen2 = 0
               then f2\<lparr>agent := fold mark_safe (elems ord (cells sen2)) a\<rparr>
               else f2\<lparr>agent := a\<rparr>)
            else
              (let a = (agent f2)\<lparr>knowledge := (knowledge (agent f2))(n \<mapsto> sen1)\<rparr> in
               if int (card (cells sen1)) = count sen1 \<and> 0 < card (cells sen1)
               then f2\<lparr>agent := a,
                       mines_v := fold insert (elems ord (cells sen1)) (mines_v f2)\<rparr>
               else f2\<lparr>agent := a\<rparr>))
         else f2))"

text \<open>The cells the double loop visits, in the order of the two nested \<^verbatim>\<open>range\<close>s.\<close>

definition scanned :: "ai \<Rightarrow> cell \<Rightarrow> cell list" where
  "scanned s c =
     List.product (py_range (max 0 (fst c - 1)) (min (width s) (fst c + 2)))
                  (py_range (max 0 (snd c - 1)) (min (height s) (snd c + 2)))"

text \<open>\<^verbatim>\<open>add_knowledge\<close> from its first statement to the end of the double loop.\<close>

definition scan :: "cell set_order \<Rightarrow> ai \<Rightarrow> cell \<Rightarrow> int \<Rightarrow> bool \<Rightarrow> frame" where
  "scan ord s c k m =
    (let s1 = s\<lparr>moves_made := insert c (moves_made s)\<rparr> in
     fold (visit ord c m) (scanned s1 c)
       \<lparr>agent = s1, count_v = k, mines_v = {}, neighbors_v = {}\<rparr>)"

text \<open>
  Lines 234 to 247: the new sentence is stored under the key \<^verbatim>\<open>cell\<close>, then its cells
  are collected as mines or marked safe.
\<close>

definition store :: "cell \<Rightarrow> bool \<Rightarrow> frame \<Rightarrow> frame" where
  "store c m f =
    (let a = agent f;
         nb = neighbors_v f - moves_made a - mines a in
     f\<lparr>agent := a\<lparr>knowledge := (knowledge a)(c \<mapsto> Sentence nb (count_v f) m)\<rparr>,
       neighbors_v := nb\<rparr>)"

definition conclude :: "cell set_order \<Rightarrow> bool \<Rightarrow> frame \<Rightarrow> frame" where
  "conclude ord m f =
    (if int (card (neighbors_v f)) = count_v f \<and> count_v f \<noteq> 0
     then f\<lparr>mines_v := fold insert (elems ord (neighbors_v f)) (mines_v f)\<rparr>
     else if count_v f = 0 \<and> \<not> m
     then f\<lparr>agent := fold mark_safe (elems ord (neighbors_v f)) (agent f)\<rparr>
     else f)"

definition prepare :: "cell set_order \<Rightarrow> ai \<Rightarrow> cell \<Rightarrow> int \<Rightarrow> bool \<Rightarrow> frame" where
  "prepare ord s c k m = conclude ord m (store c m (scan ord s c k m))"

text \<open>
  \<^verbatim>\<open>add_knowledge(cell, count, is_mine)\<close> ends with \<^verbatim>\<open>for mine in mines: self.mark_mine(mine)\<close>,
  and \<^verbatim>\<open>mark_mine(cell)\<close> is \<^verbatim>\<open>self.mines.add(cell)\<close> followed by
  \<^verbatim>\<open>self.add_knowledge(cell, 0, True)\<close>.  The recursion ends because an activation with
  \<^verbatim>\<open>count = 0\<close> and \<^verbatim>\<open>is_mine = True\<close> collects no mine.
\<close>

function add_knowledge :: "cell set_order \<Rightarrow> ai \<Rightarrow> cell \<Rightarrow> int \<Rightarrow> bool \<Rightarrow> ai"
  and mark_mine :: "cell set_order \<Rightarrow> cell \<Rightarrow> ai \<Rightarrow> ai" where
  "add_knowledge ord s c k m =
     (let f = prepare ord s c k m
      in fold (mark_mine ord) (elems ord (mines_v f)) (agent f))"
| "mark_mine ord c s = add_knowledge ord (s\<lparr>mines := insert c (mines s)\<rparr>) c 0 True"
  by pat_completeness auto

termination
proof (relation "measure (\<lambda>x. case x of
          Inl (ord, s, c, k, m) \<Rightarrow> if k = 0 \<and> m then 1 else 3
        | Inr (ord, c, s) \<Rightarrow> 2)")
  show "wf (measure (\<lambda>x :: cell set_order \<times> ai \<times> cell \<times> int \<times> bool + cell set_order \<times> cell \<times> ai.
          case x of
            Inl (ord, s, c, k, m) \<Rightarrow> if k = 0 \<and> m then 1 else 3
          | Inr (ord, c, s) \<Rightarrow> (2::nat)))"
    by simp
next
  fix ord :: "cell set_order" and s a :: ai and c x :: cell and k :: int and m :: bool and f :: frame
  assume f: "f = prepare ord s c k m" and x: "x \<in> set (elems ord (mines_v f))"
  have quiet: "mines_v (fold (visit ord c True) ns g) = {}
               \<and> count_v (fold (visit ord c True) ns g) = 0"
    if "mines_v g = {} \<and> count_v g = 0" for ns g
    using that
  proof (induction ns arbitrary: g)
    case Nil
    then show ?case by simp
  next
    case (Cons n ns)
    have "mines_v (visit ord c True n g) = {} \<and> count_v (visit ord c True n g) = 0"
      using Cons.prems by (simp add: visit_def Let_def split: option.splits)
    then show ?case using Cons.IH by simp
  qed
  have "set (elems ord {}) = {}"
    by transfer simp
  then have "k = 0 \<and> m \<Longrightarrow> set (elems ord (mines_v f)) = {}"
    using quiet [of "\<lparr>agent = s\<lparr>moves_made := insert c (moves_made s)\<rparr>, count_v = 0,
                      mines_v = {}, neighbors_v = {}\<rparr>"]
    by (simp add: f prepare_def conclude_def store_def scan_def Let_def)
  with x show "(Inr (ord, x, a), Inl (ord, s, c, k, m)) \<in> measure (\<lambda>x. case x of
          Inl (ord, s, c, k, m) \<Rightarrow> if k = 0 \<and> m then 1 else 3
        | Inr (ord, c, s) \<Rightarrow> 2)"
    by auto
next
  fix ord :: "cell set_order" and c :: cell and s :: ai
  show "(Inl (ord, s\<lparr>mines := insert c (mines s)\<rparr>, c, 0, True), Inr (ord, c, s))
        \<in> measure (\<lambda>x. case x of
          Inl (ord, s, c, k, m) \<Rightarrow> if k = 0 \<and> m then 1 else 3
        | Inr (ord, c, s) \<Rightarrow> 2)"
    by simp
qed

declare add_knowledge.simps [simp del] mark_mine.simps [simp del]

text \<open>
  \<^verbatim>\<open>make_safe_move\<close>: the element that \<^verbatim>\<open>random.sample(unexplored_safes, 1)[0]\<close> draws is
  given by the parameter \<open>draw\<close>; the method falls off its end, returning \<^verbatim>\<open>None\<close>, when
  the set is empty.
\<close>

definition make_safe_move :: "(cell set \<Rightarrow> cell) \<Rightarrow> ai \<Rightarrow> cell option" where
  "make_safe_move draw s =
     (let unexplored_safes = safes s - moves_made s
      in if unexplored_safes \<noteq> {} then Some (draw unexplored_safes) else None)"

text \<open>\<^verbatim>\<open>make_random_move\<close>: the first cell of \<^verbatim>\<open>range(0,7)\<close> \<open>\<times>\<close> \<^verbatim>\<open>range(0,7)\<close> that is not
  in \<^verbatim>\<open>moves_made\<close>, and \<^verbatim>\<open>None\<close> when the loops end.\<close>

definition make_random_move :: "ai \<Rightarrow> cell option" where
  "make_random_move s =
     find (\<lambda>c. c \<notin> moves_made s) (List.product (py_range 0 7) (py_range 0 7))"

text \<open>
  A driving loop calls the three methods in any order.  The two move methods assign to no
  attribute, so they return the agent as it was, with the move.
\<close>

datatype call = Update cell int bool | Safe_move | Random_move

fun exec :: "cell set_order \<Rightarrow> (cell set \<Rightarrow> cell) \<Rightarrow> call \<Rightarrow> ai \<Rightarrow> ai \<times> cell option" where
  "exec ord draw (Update c k m) s = (add_knowledge ord s c k m, None)"
| "exec ord draw Safe_move s = (s, make_safe_move draw s)"
| "exec ord draw Random_move s = (s, make_random_move s)"

fun run :: "cell set_order \<Rightarrow> (cell set \<Rightarrow> cell) \<Rightarrow> call list \<Rightarrow> ai \<Rightarrow> ai" where
  "run ord draw [] s = s"
| "run ord draw (x # xs) s = run ord draw xs (fst (exec ord draw x s))"

section \<open>The variant \<^verbatim>\<open>minesweeper copy.py\<close>\<close>

text \<open>
  The repository holds a second version of the same three classes.  Its \<^verbatim>\<open>Minesweeper\<close>
  class, \<^verbatim>\<open>known_mines\<close>, \<^verbatim>\<open>mark_safe\<close> and \<^verbatim>\<open>make_safe_move\<close> are those of \<^verbatim>\<open>minesweeper.py\<close>;
  \<^verbatim>\<open>Sentence.__init__\<close>, \<^verbatim>\<open>mark_mine\<close>, \<^verbatim>\<open>add_knowledge\<close> and \<^verbatim>\<open>make_random_move\<close> differ.
  Its definitions carry the suffix \<open>_copy\<close>.
\<close>

text \<open>
  The sets of this variant receive cells, which are tuples, and also integers: a sentence
  is built from \<^verbatim>\<open>Sentence(cell, count, is_mine)\<close>, whose \<^verbatim>\<open>set(cells)\<close> is the set of the two
  coordinates of the tuple, and the elements of such a set are passed to \<^verbatim>\<open>mark_mine\<close>.
\<close>

datatype pyval = Tup cell | Num int

record sentence_copy =
  cells_copy :: "int set"
  count_copy :: int
  is_mine_copy :: bool

record ai_copy =
  height_copy :: int
  width_copy :: int
  moves_made_copy :: "pyval set"
  mines_copy :: "pyval set"
  safes_copy :: "pyval set"
  knowledge_copy :: "cell \<rightharpoonup> sentence_copy"

text \<open>\<^verbatim>\<open>Sentence.__init__\<close> of the variant: \<^verbatim>\<open>self.cells = set(cells)\<close> on the tuple \<^verbatim>\<open>cell\<close>,
  and \<^verbatim>\<open>self.is_mine = False\<close> whatever the argument.\<close>

definition Sentence_copy :: "cell \<Rightarrow> int \<Rightarrow> bool \<Rightarrow> sentence_copy" where
  "Sentence_copy c n m = \<lparr>cells_copy = {fst c, snd c}, count_copy = n, is_mine_copy = False\<rparr>"

definition MinesweeperAI_copy :: "int \<Rightarrow> int \<Rightarrow> ai_copy" where
  "MinesweeperAI_copy h w =
     \<lparr>height_copy = h, width_copy = w, moves_made_copy = {}, mines_copy = {},
      safes_copy = {}, knowledge_copy = Map.empty\<rparr>"

definition mark_safe_copy :: "pyval \<Rightarrow> ai_copy \<Rightarrow> ai_copy" where
  "mark_safe_copy v s = s\<lparr>safes_copy := insert v (safes_copy s)\<rparr>"

record frame_copy =
  agent_copy :: ai_copy
  neighbors_copy :: "cell set"
  raised :: "error option"

definition scanned_copy :: "ai_copy \<Rightarrow> cell \<Rightarrow> cell list" where
  "scanned_copy s c =
     List.product (py_range (max 0 (fst c - 1)) (min (width_copy s) (fst c + 2)))
                  (py_range (max 0 (snd c - 1)) (min (height_copy s) (snd c + 2)))"

text \<open>
  A \<^verbatim>\<open>for\<close> loop whose body is one call that may raise: the first exception ends the loop
  and every enclosing activation, and leaves the agent as mutated so far.
\<close>

abbreviation until_raised ::
    "('a \<Rightarrow> ai_copy \<Rightarrow> ai_copy \<times> error option) \<Rightarrow> 'a list \<Rightarrow> ai_copy
      \<Rightarrow> ai_copy \<times> error option" where
  "until_raised call xs s \<equiv>
     fold (\<lambda>x r. if snd r \<noteq> None then r else call x (fst r)) xs (s, None)"

text \<open>
  The body of the double loop (lines 193 to 205 of the variant) for the neighbor \<open>n\<close>.
  The test \<^verbatim>\<open>cell in sentence.cells\<close> compares a tuple with integers and is false, so
  nothing is removed; \<^verbatim>\<open>is_mine\<close> has been set to \<^verbatim>\<open>False\<close>, so the \<^verbatim>\<open>elif\<close> branch is
  never taken.  \<open>mark\<close> stands for \<^verbatim>\<open>self.mark_mine\<close>.
\<close>

abbreviation visit_copy ::
    "(pyval \<Rightarrow> ai_copy \<Rightarrow> ai_copy \<times> error option) \<Rightarrow> int set_order \<Rightarrow> cell \<Rightarrow> cell
      \<Rightarrow> frame_copy \<Rightarrow> frame_copy" where
  "visit_copy mark ordi c n f \<equiv>
     (if raised f \<noteq> None then f
      else
       (let f1 = f\<lparr>neighbors_copy := insert n (neighbors_copy f)\<rparr> in
        if n = c then f1
        else
          case knowledge_copy (agent_copy f1) n of
            None \<Rightarrow> f1
          | Some sen \<Rightarrow>
             if int (card (cells_copy sen)) = count_copy sen
             then
               (let r = until_raised (\<lambda>mine. mark (Num mine))
                          (elems ordi (cells_copy sen)) (agent_copy f1)
                in f1\<lparr>agent_copy := fst r, raised := snd r\<rparr>)
             else f1))"

text \<open>
  The body of \<^verbatim>\<open>add_knowledge\<close> of the variant.  \<^verbatim>\<open>x, y = cell\<close> raises \<^verbatim>\<open>TypeError\<close> when
  \<^verbatim>\<open>cell\<close> is an integer, after the cell has been recorded as a move and as safe.
\<close>

abbreviation body_copy ::
    "(pyval \<Rightarrow> ai_copy \<Rightarrow> ai_copy \<times> error option) \<Rightarrow> cell set_order \<Rightarrow> int set_order
      \<Rightarrow> ai_copy \<Rightarrow> pyval \<Rightarrow> int \<Rightarrow> ai_copy \<times> error option" where
  "body_copy mark ord ordi s v k \<equiv>
    (let s1 = mark_safe_copy v (s\<lparr>moves_made_copy := insert v (moves_made_copy s)\<rparr>) in
     case v of
       Num i \<Rightarrow> (s1, Some TypeError)
     | Tup c \<Rightarrow>
        (let f = fold (visit_copy mark ordi c) (scanned_copy s1 c)
                   \<lparr>agent_copy = s1, neighbors_copy = {}, raised = None\<rparr>
         in if raised f \<noteq> None then (agent_copy f, raised f)
            else
             (let a = agent_copy f;
                  nb = {n \<in> neighbors_copy f. Tup n \<notin> safes_copy a \<and> Tup n \<notin> mines_copy a};
                  a1 = a\<lparr>knowledge_copy := (knowledge_copy a)(c \<mapsto> Sentence_copy c k False)\<rparr>
              in if int (card nb) = k
                 then until_raised (\<lambda>n. mark (Tup n)) (elems ord nb) a1
                 else if k = 0
                 then (fold (\<lambda>n. mark_safe_copy (Tup n)) (elems ord nb) a1, None)
                 else (a1, None))))"

text \<open>\<^verbatim>\<open>mark_mine\<close> of the variant is \<^verbatim>\<open>self.mines.add(cell)\<close> followed by
  \<^verbatim>\<open>self.add_knowledge(cell, -1, True)\<close>.\<close>

function add_knowledge_copy ::
    "cell set_order \<Rightarrow> int set_order \<Rightarrow> ai_copy \<Rightarrow> pyval \<Rightarrow> int \<Rightarrow> bool
      \<Rightarrow> ai_copy \<times> error option"
  and mark_mine_copy ::
    "cell set_order \<Rightarrow> int set_order \<Rightarrow> pyval \<Rightarrow> ai_copy \<Rightarrow> ai_copy \<times> error option" where
  "add_knowledge_copy ord ordi s v k m = body_copy (mark_mine_copy ord ordi) ord ordi s v k"
| "mark_mine_copy ord ordi v s =
     add_knowledge_copy ord ordi (s\<lparr>mines_copy := insert v (mines_copy s)\<rparr>) v (- 1) True"
  by pat_completeness auto

termination
  by (relation "measure (\<lambda>x. case x of
          Inl (ord, ordi, s, v, k, m) \<Rightarrow> (case v of Num i \<Rightarrow> 0 | Tup c \<Rightarrow> if k < 0 then 2 else 4)
        | Inr (ord, ordi, v, s) \<Rightarrow> (case v of Num i \<Rightarrow> 1 | Tup c \<Rightarrow> 3))")
    (simp_all split: pyval.splits)

declare add_knowledge_copy.simps [simp del] mark_mine_copy.simps [simp del]

text \<open>\<^verbatim>\<open>make_safe_move\<close> and \<^verbatim>\<open>make_random_move\<close> of the variant; the latter looks at
  \<^verbatim>\<open>range(1,5)\<close> \<open>\<times>\<close> \<^verbatim>\<open>range(1,5)\<close>.\<close>

definition make_safe_move_copy :: "(pyval set \<Rightarrow> pyval) \<Rightarrow> ai_copy \<Rightarrow> pyval option" where
  "make_safe_move_copy draw s =
     (let unexplored_safes = safes_copy s - moves_made_copy s
      in if unexplored_safes \<noteq> {} then Some (draw unexplored_safes) else None)"

definition make_random_move_copy :: "ai_copy \<Rightarrow> cell option" where
  "make_random_move_copy s =
     find (\<lambda>c. Tup c \<notin> moves_made_copy s) (List.product (py_range 1 5) (py_range 1 5))"

text \<open>
  The calls of a driving loop on the variant.  A call of \<^verbatim>\<open>add_knowledge\<close> that raises leaves
  the agent as mutated up to the exception.
\<close>

fun exec_copy :: "cell set_order \<Rightarrow> int set_order \<Rightarrow> (pyval set \<Rightarrow> pyval) \<Rightarrow> call \<Rightarrow> ai_copy
    \<Rightarrow> ai_copy \<times> (error + pyval option)" where
  "exec_copy ord ordi draw (Update c k m) s =
     (let r = add_knowledge_copy ord ordi s (Tup c) k m
      in (fst r, case snd r of None \<Rightarrow> Inr None | Some e \<Rightarrow> Inl e))"
| "exec_copy ord ordi draw Safe_move s = (s, Inr (make_safe_move_copy draw s))"
| "exec_copy ord ordi draw Random_move s = (s, Inr (map_option Tup (make_random_move_copy s)))"

fun run_copy :: "cell set_order \<Rightarrow> int set_order \<Rightarrow> (pyval set \<Rightarrow> pyval) \<Rightarrow> call list
    \<Rightarrow> ai_copy \<Rightarrow> ai_copy" where
  "run_copy ord ordi draw [] s = s"
| "run_copy ord ordi draw (x # xs) s = run_copy ord ordi draw xs (fst (exec_copy ord ordi draw x s))"

section \<open>Auxiliary notions\<close>

text \<open>The three sets of an agent \<open>s\<close> are included in those of \<open>t\<close>.\<close>

definition grows_to :: "ai \<Rightarrow> ai \<Rightarrow> bool" where
  "grows_to s t \<longleftrightarrow>
     moves_made s \<subseteq> moves_made t \<and> mines s \<subseteq> mines t \<and> safes s \<subseteq> safes t"

definition grows_to_copy :: "ai_copy \<Rightarrow> ai_copy \<Rightarrow> bool" where
  "grows_to_copy s t \<longleftrightarrow>
     moves_made_copy s \<subseteq> moves_made_copy t \<and> mines_copy s \<subseteq> mines_copy t
     \<and> safes_copy s \<subseteq> safes_copy t"

text \<open>
  An 8 by 8 game in which \<^verbatim>\<open>(0,0)\<close>, \<^verbatim>\<open>(0,1)\<close> and \<^verbatim>\<open>(0,2)\<close> are opened and each reports one
  neighboring mine (as on a board whose mines are at \<^verbatim>\<open>(1,0)\<close>, \<^verbatim>\<open>(0,3)\<close> and \<^verbatim>\<open>(6,6)\<close>),
  and the same game after \<^verbatim>\<open>(5,5)\<close> is opened too.
\<close>

definition three_openings :: "cell set_order \<Rightarrow> ai" where
  "three_openings ord =
     add_knowledge ord (add_knowledge ord (add_knowledge ord (MinesweeperAI 8 8)
       (0, 0) 1 False) (0, 1) 1 False) (0, 2) 1 False"

definition four_openings :: "cell set_order \<Rightarrow> ai" where
  "four_openings ord = add_knowledge ord (three_openings ord) (5, 5) 1 False"

text \<open>Every key of the dictionary \<^verbatim>\<open>knowledge\<close> is a cell of \<^verbatim>\<open>moves_made\<close>.\<close>

definition keys_opened :: "ai \<Rightarrow> bool" where
  "keys_opened s \<longleftrightarrow> dom (knowledge s) \<subseteq> moves_made s"

text \<open>
  An 8 by 8 game whose only mine is at \<^verbatim>\<open>(7,7)\<close>: the cells of rows and columns 0 to 6 are
  opened in row-major order, \<^verbatim>\<open>(6,6)\<close> last, each with the count the board reports.
\<close>

definition window_opened :: "cell set_order \<Rightarrow> ai" where
  "window_opened ord =
     run ord (\<lambda>S. (0, 0))
       (map (\<lambda>c. Update c (if c = (6, 6) then 1 else 0) False) (List.product [0..6] [0..6]))
       (MinesweeperAI 8 8)"

section \<open>Monotonicity of the three sets\<close>

lemma grows_to_refl: "grows_to s s"
  by (simp add: grows_to_def)

lemma grows_to_trans: "grows_to s t \<Longrightarrow> grows_to t u \<Longrightarrow> grows_to s u"
  unfolding grows_to_def by blast

lemma fold_grows:
  assumes "\<And>x b. x \<in> set xs \<Longrightarrow> grows_to b (g x b)"
  shows "grows_to a (fold g xs a)"
  using assms
proof (induction xs arbitrary: a)
  case Nil
  show ?case by (simp add: grows_to_refl)
next
  case (Cons x xs)
  have "grows_to a (g x a)" using Cons.prems by simp
  moreover have "grows_to (g x a) (fold g xs (g x a))"
    using Cons.IH Cons.prems by simp
  ultimately show ?case using grows_to_trans by fastforce
qed

lemma mark_safe_grows: "grows_to a (mark_safe c a)"
  by (auto simp: grows_to_def mark_safe_def)

lemma mark_safe_all_grows: "grows_to a (fold mark_safe xs a)"
  by (rule fold_grows) (rule mark_safe_grows)

lemma fold_mark_safe:
  "fold mark_safe xs a = a\<lparr>safes := safes a \<union> set xs\<rparr>"
  by (induction xs arbitrary: a) (simp_all add: mark_safe_def insert_commute Un_commute)

lemma visit_moves_made: "moves_made (agent (visit ord c m n f)) = moves_made (agent f)"
  by (simp add: visit_def Let_def fold_mark_safe split: option.splits)

lemma visit_mines: "mines (agent (visit ord c m n f)) = mines (agent f)"
  by (simp add: visit_def Let_def fold_mark_safe split: option.splits)

lemma visit_safes: "safes (agent f) \<subseteq> safes (agent (visit ord c m n f))"
  by (simp add: visit_def Let_def fold_mark_safe split: option.splits)

lemma visit_grows: "grows_to (agent f) (agent (visit ord c m n f))"
  by (simp add: grows_to_def visit_moves_made visit_mines visit_safes)

lemma fold_invariant:
  assumes "P a" and "\<And>x b. P b \<Longrightarrow> P (g x b)"
  shows "P (fold g xs a)"
  using assms(1) by (induction xs arbitrary: a) (simp_all add: assms(2))

lemma scan_grows:
  "grows_to (s\<lparr>moves_made := insert c (moves_made s)\<rparr>) (agent (scan ord s c k m))"
  unfolding scan_def Let_def
proof (rule fold_invariant)
  show "grows_to (s\<lparr>moves_made := insert c (moves_made s)\<rparr>)
     (agent \<lparr>agent = s\<lparr>moves_made := insert c (moves_made s)\<rparr>, count_v = k,
              mines_v = {}, neighbors_v = {}\<rparr>)"
    by (simp add: grows_to_refl)
next
  fix x :: cell and b :: frame
  assume "grows_to (s\<lparr>moves_made := insert c (moves_made s)\<rparr>) (agent b)"
  then show "grows_to (s\<lparr>moves_made := insert c (moves_made s)\<rparr>) (agent (visit ord c m x b))"
    using visit_grows grows_to_trans by blast
qed

lemma store_grows: "grows_to (agent f) (agent (store c m f))"
  by (simp add: store_def Let_def grows_to_def)

lemma conclude_grows: "grows_to (agent f) (agent (conclude ord m f))"
  by (simp add: conclude_def grows_to_def fold_mark_safe)

lemma prepare_grows:
  "grows_to (s\<lparr>moves_made := insert c (moves_made s)\<rparr>) (agent (prepare ord s c k m))"
  unfolding prepare_def
  by (rule grows_to_trans [OF scan_grows grows_to_trans [OF store_grows conclude_grows]])

lemma add_knowledge_mark_mine_grow:
  "grows_to (s\<lparr>moves_made := insert c (moves_made s)\<rparr>) (add_knowledge ord s c k m)"
  "grows_to (s'\<lparr>mines := insert c' (mines s'), moves_made := insert c' (moves_made s')\<rparr>)
            (mark_mine ord c' s')"
proof (induction ord s c k m and ord c' s' rule: add_knowledge_mark_mine.induct)
  case (1 ord s c k m)
  have step: "grows_to b (mark_mine ord x b)"
    if "x \<in> set (elems ord (mines_v (prepare ord s c k m)))" for x b
  proof -
    have "grows_to b (b\<lparr>mines := insert x (mines b), moves_made := insert x (moves_made b)\<rparr>)"
      by (auto simp: grows_to_def)
    then show ?thesis using 1 [OF refl that, of b] grows_to_trans by blast
  qed
  have "grows_to (agent (prepare ord s c k m))
          (fold (mark_mine ord) (elems ord (mines_v (prepare ord s c k m)))
             (agent (prepare ord s c k m)))"
    by (rule fold_grows) (rule step)
  with prepare_grows show ?case
    unfolding add_knowledge.simps Let_def by (rule grows_to_trans)
next
  case (2 ord c s)
  then show ?case by (simp add: mark_mine.simps)
qed

lemma add_knowledge_grows: "grows_to s (add_knowledge ord s c k m)"
proof -
  have "grows_to s (s\<lparr>moves_made := insert c (moves_made s)\<rparr>)"
    by (auto simp: grows_to_def)
  then show ?thesis using add_knowledge_mark_mine_grow(1) grows_to_trans by blast
qed

lemma run_grows: "grows_to s (run ord draw xs s)"
proof (induction xs arbitrary: s)
  case Nil
  show ?case by (simp add: grows_to_refl)
next
  case (Cons x xs)
  have "grows_to s (fst (exec ord draw x s))"
    by (cases x) (simp_all add: add_knowledge_grows grows_to_refl)
  moreover have "grows_to (fst (exec ord draw x s)) (run ord draw (x # xs) s)"
    using Cons.IH by simp
  ultimately show ?case by (rule grows_to_trans)
qed


section \<open>The keys of the knowledge base\<close>

lemma fold_invariant_on:
  assumes "P a" and "\<And>x b. x \<in> set xs \<Longrightarrow> P b \<Longrightarrow> P (g x b)"
  shows "P (fold g xs a)"
  using assms by (induction xs arbitrary: a) simp_all

lemma visit_dom: "dom (knowledge (agent (visit ord c m n f))) = dom (knowledge (agent f))"
  by (auto simp: visit_def Let_def fold_mark_safe split: option.splits if_splits)

lemma visit_keys_opened:
  "keys_opened (agent f) \<Longrightarrow> keys_opened (agent (visit ord c m n f))"
  by (simp add: keys_opened_def visit_dom visit_moves_made)

lemma scan_keys_opened:
  assumes "keys_opened s"
  shows "keys_opened (agent (scan ord s c k m)) \<and> c \<in> moves_made (agent (scan ord s c k m))"
  unfolding scan_def Let_def
proof (rule fold_invariant [where P = "\<lambda>f. keys_opened (agent f) \<and> c \<in> moves_made (agent f)"])
  show "keys_opened (agent \<lparr>agent = s\<lparr>moves_made := insert c (moves_made s)\<rparr>, count_v = k,
           mines_v = {}, neighbors_v = {}\<rparr>)
        \<and> c \<in> moves_made (agent \<lparr>agent = s\<lparr>moves_made := insert c (moves_made s)\<rparr>,
           count_v = k, mines_v = {}, neighbors_v = {}\<rparr>)"
    using assms by (auto simp: keys_opened_def)
next
  fix n :: cell and f :: frame
  assume "keys_opened (agent f) \<and> c \<in> moves_made (agent f)"
  then show "keys_opened (agent (visit ord c m n f)) \<and> c \<in> moves_made (agent (visit ord c m n f))"
    by (simp add: visit_keys_opened visit_moves_made)
qed

lemma prepare_keys_opened:
  assumes "keys_opened s"
  shows "keys_opened (agent (prepare ord s c k m))"
proof -
  have dom: "dom (knowledge (agent (prepare ord s c k m)))
             = insert c (dom (knowledge (agent (scan ord s c k m))))"
    by (simp add: prepare_def conclude_def store_def Let_def fold_mark_safe)
  have moves: "moves_made (agent (prepare ord s c k m)) = moves_made (agent (scan ord s c k m))"
    by (simp add: prepare_def conclude_def store_def Let_def fold_mark_safe)
  show ?thesis
    using scan_keys_opened [OF assms, of ord c k m]
    unfolding keys_opened_def dom moves by blast
qed

lemma add_knowledge_mark_mine_keys_opened:
  "keys_opened s \<Longrightarrow> keys_opened (add_knowledge ord s c k m)"
  "keys_opened s' \<Longrightarrow> keys_opened (mark_mine ord c' s')"
proof (induction ord s c k m and ord c' s' rule: add_knowledge_mark_mine.induct)
  case (1 ord s c k m)
  have "keys_opened (fold (mark_mine ord) (elems ord (mines_v (prepare ord s c k m)))
          (agent (prepare ord s c k m)))"
  proof (rule fold_invariant_on [where P = keys_opened])
    show "keys_opened (agent (prepare ord s c k m))"
      using "1.prems" by (rule prepare_keys_opened)
  next
    fix x :: cell and b :: ai
    assume "x \<in> set (elems ord (mines_v (prepare ord s c k m)))" and "keys_opened b"
    then show "keys_opened (mark_mine ord x b)"
      using "1.IH" [OF refl] by blast
  qed
  then show ?case by (simp add: add_knowledge.simps Let_def)
next
  case (2 ord c s)
  have "keys_opened (s\<lparr>mines := insert c (mines s)\<rparr>)"
    using "2.prems" by (simp add: keys_opened_def)
  then show ?case using "2.IH" by (simp add: mark_mine.simps)
qed

lemma three_openings_keys: "keys_opened (three_openings ord)"
  unfolding three_openings_def
  by (intro add_knowledge_mark_mine_keys_opened(1)) (simp add: keys_opened_def MinesweeperAI_def)

section \<open>Monotonicity in the variant\<close>

lemma grows_to_copy_refl: "grows_to_copy s s"
  by (simp add: grows_to_copy_def)

lemma grows_to_copy_trans: "grows_to_copy s t \<Longrightarrow> grows_to_copy t u \<Longrightarrow> grows_to_copy s u"
  unfolding grows_to_copy_def by blast

lemma mark_mine_copy_Num:
  "mark_mine_copy ord ordi (Num i) s =
     (s\<lparr>mines_copy := insert (Num i) (mines_copy s),
        moves_made_copy := insert (Num i) (moves_made_copy s),
        safes_copy := insert (Num i) (safes_copy s)\<rparr>, Some TypeError)"
  by (simp add: mark_mine_copy.simps add_knowledge_copy.simps mark_safe_copy_def)



lemma until_raised_grows:
  assumes "\<And>x a. x \<in> set xs \<Longrightarrow> grows_to_copy a (fst (call x a))"
  shows "grows_to_copy (fst r)
           (fst (fold (\<lambda>x r. if snd r \<noteq> None then r else call x (fst r)) xs r))"
  using assms
proof (induction xs arbitrary: r)
  case Nil
  show ?case by (simp add: grows_to_copy_refl)
next
  case (Cons x xs)
  define r' where "r' = (if snd r \<noteq> None then r else call x (fst r))"
  have 1: "grows_to_copy (fst r) (fst r')"
    unfolding r'_def using Cons.prems [of x "fst r"] by (simp add: grows_to_copy_refl)
  have 2: "grows_to_copy (fst r')
      (fst (fold (\<lambda>x r. if snd r \<noteq> None then r else call x (fst r)) xs r'))"
    by (rule Cons.IH) (simp add: Cons.prems)
  have "fold (\<lambda>x r. if snd r \<noteq> None then r else call x (fst r)) (x # xs) r
        = fold (\<lambda>x r. if snd r \<noteq> None then r else call x (fst r)) xs r'"
    by (simp add: r'_def)
  then show ?case
    using grows_to_copy_trans [OF 1 2] by simp
qed


lemma visit_copy_grows:
  assumes "\<And>i a. grows_to_copy a (fst (mark (Num i) a))"
  shows "grows_to_copy (agent_copy f) (agent_copy (visit_copy mark ordi c n f))"
proof -
  have *: "grows_to_copy a (fst (until_raised (\<lambda>mine. mark (Num mine)) xs a))" for xs a
    using until_raised_grows [where call = "\<lambda>mine. mark (Num mine)" and r = "(a, None)"
        and xs = xs] assms
    by simp
  show ?thesis
    by (simp add: Let_def grows_to_copy_refl * split: option.splits del: not_None_eq)
qed


lemma fold_mark_safe_copy:
  "fold (\<lambda>n. mark_safe_copy (Tup n)) xs a = a\<lparr>safes_copy := safes_copy a \<union> Tup ` set xs\<rparr>"
  by (induction xs arbitrary: a) (simp_all add: mark_safe_copy_def insert_commute Un_commute)

lemma body_copy_grows:
  assumes num: "\<And>i a. grows_to_copy a (fst (mark (Num i) a))"
    and tup: "\<And>n a. 0 \<le> k \<Longrightarrow> grows_to_copy a (fst (mark (Tup n) a))"
  shows "grows_to_copy
           (mark_safe_copy v (s\<lparr>moves_made_copy := insert v (moves_made_copy s)\<rparr>))
           (fst (body_copy mark ord ordi s v k))"
proof (cases v)
  case (Num i)
  then show ?thesis by (simp add: grows_to_copy_refl)
next
  case (Tup c)
  define s1 where "s1 = mark_safe_copy v (s\<lparr>moves_made_copy := insert v (moves_made_copy s)\<rparr>)"
  define f where "f = fold (visit_copy mark ordi c) (scanned_copy s1 c)
                        \<lparr>agent_copy = s1, neighbors_copy = {}, raised = None\<rparr>"
  define nb where "nb = {n \<in> neighbors_copy f. Tup n \<notin> safes_copy (agent_copy f)
                                            \<and> Tup n \<notin> mines_copy (agent_copy f)}"
  define a1 where "a1 = (agent_copy f)\<lparr>knowledge_copy :=
                      (knowledge_copy (agent_copy f))(c \<mapsto> Sentence_copy c k False)\<rparr>"
  define tail where "tail =
     (if int (card nb) = k then until_raised (\<lambda>n. mark (Tup n)) (elems ord nb) a1
      else if k = 0 then (fold (\<lambda>n. mark_safe_copy (Tup n)) (elems ord nb) a1, None)
      else (a1, None))"
  have body: "body_copy mark ord ordi s v k
              = (if raised f \<noteq> None then (agent_copy f, raised f) else tail)"
    unfolding Tup s1_def f_def nb_def a1_def tail_def Let_def by simp
  have scan: "grows_to_copy s1 (agent_copy f)"
    unfolding f_def
  proof (rule fold_invariant [where P = "\<lambda>f. grows_to_copy s1 (agent_copy f)"])
    show "grows_to_copy s1 (agent_copy \<lparr>agent_copy = s1, neighbors_copy = {}, raised = None\<rparr>)"
      by (simp add: grows_to_copy_refl)
  next
    fix n :: cell and g :: frame_copy
    assume "grows_to_copy s1 (agent_copy g)"
    then show "grows_to_copy s1 (agent_copy (visit_copy mark ordi c n g))"
      using visit_copy_grows [where mark = mark and f = g and ordi = ordi and c = c and n = n,
          OF num]
      by (rule grows_to_copy_trans)
  qed
  have a1: "grows_to_copy (agent_copy f) a1"
    by (simp add: a1_def grows_to_copy_def)
  have tail: "grows_to_copy a1 (fst tail)"
  proof (cases "int (card nb) = k")
    case True
    then have "0 \<le> k" by auto
    then have "grows_to_copy a1 (fst (until_raised (\<lambda>n. mark (Tup n)) (elems ord nb) a1))"
      using until_raised_grows [where call = "\<lambda>n. mark (Tup n)" and r = "(a1, None)"
          and xs = "elems ord nb"] tup
      by simp
    then show ?thesis using True by (simp add: tail_def)
  next
    case False
    then show ?thesis
      by (simp add: tail_def fold_mark_safe_copy grows_to_copy_def)
  qed
  have "grows_to_copy s1 (fst (if raised f \<noteq> None then (agent_copy f, raised f) else tail))"
    using scan grows_to_copy_trans [OF scan grows_to_copy_trans [OF a1 tail]]
    by (simp del: not_None_eq)
  then show ?thesis
    unfolding body s1_def .
qed

lemma add_knowledge_copy_minus_one_grows:
  "grows_to_copy
     (mark_safe_copy v (s\<lparr>moves_made_copy := insert v (moves_made_copy s)\<rparr>))
     (fst (add_knowledge_copy ord ordi s v (- 1) m))"
  unfolding add_knowledge_copy.simps
  by (rule body_copy_grows) (simp_all add: mark_mine_copy_Num grows_to_copy_def subset_insertI)

lemma mark_mine_copy_grows:
  "grows_to_copy
     (s\<lparr>mines_copy := insert v (mines_copy s), moves_made_copy := insert v (moves_made_copy s),
        safes_copy := insert v (safes_copy s)\<rparr>)
     (fst (mark_mine_copy ord ordi v s))"
  using add_knowledge_copy_minus_one_grows
          [where v = v and s = "s\<lparr>mines_copy := insert v (mines_copy s)\<rparr>"
             and ord = ord and ordi = ordi and m = True]
  by (simp add: mark_mine_copy.simps mark_safe_copy_def grows_to_copy_def)

lemma mark_mine_copy_grows_plain: "grows_to_copy s (fst (mark_mine_copy ord ordi v s))"
proof -
  have "grows_to_copy s
     (s\<lparr>mines_copy := insert v (mines_copy s), moves_made_copy := insert v (moves_made_copy s),
        safes_copy := insert v (safes_copy s)\<rparr>)"
    by (auto simp: grows_to_copy_def)
  then show ?thesis using mark_mine_copy_grows by (rule grows_to_copy_trans)
qed

lemma add_knowledge_copy_grows:
  "grows_to_copy
     (mark_safe_copy v (s\<lparr>moves_made_copy := insert v (moves_made_copy s)\<rparr>))
     (fst (add_knowledge_copy ord ordi s v k m))"
  unfolding add_knowledge_copy.simps
  by (rule body_copy_grows) (rule mark_mine_copy_grows_plain)+

lemma run_copy_grows: "grows_to_copy s (run_copy ord ordi draw xs s)"
proof (induction xs arbitrary: s)
  case Nil
  show ?case by (simp add: grows_to_copy_refl)
next
  case (Cons x xs)
  have "grows_to_copy s (fst (exec_copy ord ordi draw x s))"
  proof (cases x)
    case (Update c k m)
    have "grows_to_copy s
       (mark_safe_copy (Tup c) (s\<lparr>moves_made_copy := insert (Tup c) (moves_made_copy s)\<rparr>))"
      by (auto simp: grows_to_copy_def mark_safe_copy_def)
    then have "grows_to_copy s (fst (add_knowledge_copy ord ordi s (Tup c) k m))"
      using add_knowledge_copy_grows by (rule grows_to_copy_trans)
    then show ?thesis using Update by (simp add: Let_def)
  qed (simp_all add: grows_to_copy_refl)
  moreover have "grows_to_copy (fst (exec_copy ord ordi draw x s)) (run_copy ord ordi draw (x # xs) s)"
    using Cons.IH by simp
  ultimately show ?case by (rule grows_to_copy_trans)
qed

text \<open>
  In the variant \<^verbatim>\<open>add_knowledge\<close> records its cell as a move and as safe before anything
  else, so a cell passed to \<^verbatim>\<open>mark_mine\<close> ends in \<^verbatim>\<open>mines\<close> and in \<^verbatim>\<open>safes\<close>.
\<close>

lemma add_knowledge_copy_records:
  "v \<in> moves_made_copy (fst (add_knowledge_copy ord ordi s v k m))
   \<and> v \<in> safes_copy (fst (add_knowledge_copy ord ordi s v k m))"
  using add_knowledge_copy_grows [where v = v and s = s and ord = ord and ordi = ordi
      and k = k and m = m]
  by (auto simp: grows_to_copy_def mark_safe_copy_def)

lemma mark_mine_copy_overlap:
  "v \<in> mines_copy (fst (mark_mine_copy ord ordi v s))
   \<and> v \<in> safes_copy (fst (mark_mine_copy ord ordi v s))
   \<and> v \<in> moves_made_copy (fst (mark_mine_copy ord ordi v s))"
  using mark_mine_copy_grows [where v = v and s = s and ord = ord and ordi = ordi]
  by (auto simp: grows_to_copy_def)

text \<open>
  The variant stores \<^verbatim>\<open>Sentence(cell, count, is_mine)\<close>, the set of the two coordinates of
  the opened cell.  After \<^verbatim>\<open>(0,0)\<close> is opened with count 1 the stored sentence is
  \<open>{0} = 1\<close>, and opening \<^verbatim>\<open>(0,1)\<close> passes the integer 0 to \<^verbatim>\<open>mark_mine\<close>, which raises
  \<^verbatim>\<open>TypeError\<close>.
\<close>

lemma copy_second_opening_raises:
  "let r = add_knowledge_copy ascending ascending (MinesweeperAI_copy 8 8) (Tup (0, 0)) 1 False;
       t = add_knowledge_copy ascending ascending (fst r) (Tup (0, 1)) 1 False in
     snd r = None
   \<and> knowledge_copy (fst r) (0, 0)
       = Some \<lparr>cells_copy = {0}, count_copy = 1, is_mine_copy = False\<rparr>
   \<and> snd t = Some TypeError
   \<and> knowledge_copy (fst t) (0, 1) = None
   \<and> mines_copy (fst t) = {Num 0}
   \<and> safes_copy (fst t) = {Tup (0, 0), Tup (0, 1), Num 0}"
  by code_simp

lemma copy_new_sentence:
  "let r = add_knowledge_copy ascending ascending (MinesweeperAI_copy 2 4) (Tup (0, 2)) 1 False in
     snd r = None
   \<and> knowledge_copy (fst r) (0, 2)
       = Some \<lparr>cells_copy = {0, 2}, count_copy = 1, is_mine_copy = False\<rparr>"
  by code_simp

lemma copy_random_move_window:
  "make_random_move_copy (MinesweeperAI_copy 8 8) = Some (1, 1)
   \<and> make_random_move_copy
        ((MinesweeperAI_copy 8 8)\<lparr>moves_made_copy := Tup ` set (List.product [1..4] [1..4])\<rparr>)
      = None"
  by code_simp

section \<open>The claims\<close>

text \<open>
  Claim C8.  Across every sequence of calls to \<^verbatim>\<open>add_knowledge\<close> (the update),
  \<^verbatim>\<open>make_safe_move\<close> and \<^verbatim>\<open>make_random_move\<close> on one agent, whatever the arguments and
  whatever the order in which sets are iterated, \<^verbatim>\<open>moves_made\<close>, \<^verbatim>\<open>safes\<close> and \<^verbatim>\<open>mines\<close> only
  grow: every cell present before the calls is present after them.  This holds for the
  agent of \<^verbatim>\<open>minesweeper.py\<close> and for the agent of the variant, also across calls that
  raise.
\<close>

theorem sets_only_grow:
  "moves_made s \<subseteq> moves_made (run ord draw xs s)
   \<and> safes s \<subseteq> safes (run ord draw xs s)
   \<and> mines s \<subseteq> mines (run ord draw xs s)
   \<and> moves_made_copy t \<subseteq> moves_made_copy (run_copy ord ordi draw' xs t)
   \<and> safes_copy t \<subseteq> safes_copy (run_copy ord ordi draw' xs t)
   \<and> mines_copy t \<subseteq> mines_copy (run_copy ord ordi draw' xs t)"
  using run_grows [of s ord draw xs] run_copy_grows [of t ord ordi draw' xs]
  by (simp add: grows_to_def grows_to_copy_def)

theorem sets_only_grow_witness:
  "moves_made (three_openings ascending)
     \<subseteq> moves_made (run ascending (\<lambda>S. (0, 0))
          [Update (5, 5) 1 False, Safe_move, Random_move] (three_openings ascending))
   \<and> safes (three_openings ascending)
     \<subseteq> safes (run ascending (\<lambda>S. (0, 0))
          [Update (5, 5) 1 False, Safe_move, Random_move] (three_openings ascending))
   \<and> mines (three_openings ascending)
     \<subseteq> mines (run ascending (\<lambda>S. (0, 0))
          [Update (5, 5) 1 False, Safe_move, Random_move] (three_openings ascending))
   \<and> moves_made_copy (MinesweeperAI_copy 8 8)
     \<subseteq> moves_made_copy (run_copy ascending ascending (\<lambda>S. Num 0)
          [Update (5, 5) 1 False, Safe_move, Random_move] (MinesweeperAI_copy 8 8))
   \<and> safes_copy (MinesweeperAI_copy 8 8)
     \<subseteq> safes_copy (run_copy ascending ascending (\<lambda>S. Num 0)
          [Update (5, 5) 1 False, Safe_move, Random_move] (MinesweeperAI_copy 8 8))
   \<and> mines_copy (MinesweeperAI_copy 8 8)
     \<subseteq> mines_copy (run_copy ascending ascending (\<lambda>S. Num 0)
          [Update (5, 5) 1 False, Safe_move, Random_move] (MinesweeperAI_copy 8 8))"
  by (rule sets_only_grow)

text \<open>
  Claim C10.  After \<^verbatim>\<open>mark_mine(cell)\<close> returns, \<^verbatim>\<open>cell\<close> is a member of \<^verbatim>\<open>mines\<close> and of
  \<^verbatim>\<open>moves_made\<close>: the call of \<^verbatim>\<open>add_knowledge\<close> on the mine records it as a move made.
  The model is a total function, so the call returns in every state.
\<close>

theorem mark_mine_records:
  "c \<in> mines (mark_mine ord c s) \<and> c \<in> moves_made (mark_mine ord c s)"
  using add_knowledge_mark_mine_grow(2) [where s' = s and c' = c and ord = ord]
  by (auto simp: grows_to_def)

theorem mark_mine_records_witness:
  "(1, 0) \<in> mines (mark_mine ascending (1, 0) (three_openings ascending))
   \<and> (1, 0) \<in> moves_made (mark_mine ascending (1, 0) (three_openings ascending))"
  by (rule mark_mine_records)

text \<open>
  Claim C9.  \<^verbatim>\<open>MinesweeperAI.mark_safe(cell)\<close> adds \<^verbatim>\<open>cell\<close> to \<^verbatim>\<open>safes\<close> and leaves every
  other component of the agent as it was: \<^verbatim>\<open>moves_made\<close>, \<^verbatim>\<open>mines\<close>, the board size and the
  whole dictionary of sentences (no sentence loses the cell), in \<^verbatim>\<open>minesweeper.py\<close> and in
  the variant.
\<close>

theorem mark_safe_frame:
  "safes (mark_safe c s) = insert c (safes s)
   \<and> moves_made (mark_safe c s) = moves_made s
   \<and> mines (mark_safe c s) = mines s
   \<and> knowledge (mark_safe c s) = knowledge s
   \<and> height (mark_safe c s) = height s
   \<and> width (mark_safe c s) = width s
   \<and> safes_copy (mark_safe_copy v t) = insert v (safes_copy t)
   \<and> moves_made_copy (mark_safe_copy v t) = moves_made_copy t
   \<and> mines_copy (mark_safe_copy v t) = mines_copy t
   \<and> knowledge_copy (mark_safe_copy v t) = knowledge_copy t
   \<and> height_copy (mark_safe_copy v t) = height_copy t
   \<and> width_copy (mark_safe_copy v t) = width_copy t"
  by (simp add: mark_safe_def mark_safe_copy_def)

theorem mark_safe_frame_witness:
  "safes (mark_safe (1, 2) (three_openings ascending))
     = insert (1, 2) (safes (three_openings ascending))
   \<and> moves_made (mark_safe (1, 2) (three_openings ascending))
     = moves_made (three_openings ascending)
   \<and> mines (mark_safe (1, 2) (three_openings ascending)) = mines (three_openings ascending)
   \<and> knowledge (mark_safe (1, 2) (three_openings ascending))
     = knowledge (three_openings ascending)
   \<and> height (mark_safe (1, 2) (three_openings ascending)) = height (three_openings ascending)
   \<and> width (mark_safe (1, 2) (three_openings ascending)) = width (three_openings ascending)
   \<and> safes_copy (mark_safe_copy (Tup (1, 2)) (MinesweeperAI_copy 8 8))
     = insert (Tup (1, 2)) (safes_copy (MinesweeperAI_copy 8 8))
   \<and> moves_made_copy (mark_safe_copy (Tup (1, 2)) (MinesweeperAI_copy 8 8))
     = moves_made_copy (MinesweeperAI_copy 8 8)
   \<and> mines_copy (mark_safe_copy (Tup (1, 2)) (MinesweeperAI_copy 8 8))
     = mines_copy (MinesweeperAI_copy 8 8)
   \<and> knowledge_copy (mark_safe_copy (Tup (1, 2)) (MinesweeperAI_copy 8 8))
     = knowledge_copy (MinesweeperAI_copy 8 8)
   \<and> height_copy (mark_safe_copy (Tup (1, 2)) (MinesweeperAI_copy 8 8))
     = height_copy (MinesweeperAI_copy 8 8)
   \<and> width_copy (mark_safe_copy (Tup (1, 2)) (MinesweeperAI_copy 8 8))
     = width_copy (MinesweeperAI_copy 8 8)"
  by (rule mark_safe_frame)

text \<open>
  Claim C1 says that once the knowledge base holds \<open>{c1, c2, c3} = 1\<close> and \<open>{c1, c2} = 1\<close>,
  an update concludes that \<open>c3\<close> is safe and stores the derived sentence.  The code has no
  subset inference.  After the three openings the agent holds \<open>{(1,0), (1,1)} = 1\<close> and
  \<open>{(1,0), (1,1), (1,2)} = 1\<close>; a further update (of \<^verbatim>\<open>(5,5)\<close>) keeps both, the knowledge
  base then holds four sentences, none of them \<open>{(1,2)} = 0\<close>, and \<^verbatim>\<open>safes\<close> stays empty, so
  \<^verbatim>\<open>(1,2)\<close> is not found safe.  No set of two or more cells is iterated in this game, so
  the order of iteration plays no part.
\<close>

theorem subset_inference_absent:
  "knowledge (three_openings ascending) (0, 0)
       = Some \<lparr>cells = {(1, 0), (1, 1)}, count = 1, is_mine = False\<rparr>
   \<and> knowledge (three_openings ascending) (0, 1)
       = Some \<lparr>cells = {(1, 0), (1, 1), (1, 2)}, count = 1, is_mine = False\<rparr>
   \<and> knowledge (four_openings ascending) (0, 0)
       = Some \<lparr>cells = {(1, 0), (1, 1)}, count = 1, is_mine = False\<rparr>
   \<and> knowledge (four_openings ascending) (0, 1)
       = Some \<lparr>cells = {(1, 0), (1, 1), (1, 2)}, count = 1, is_mine = False\<rparr>
   \<and> knowledge (four_openings ascending) (0, 2)
       = Some \<lparr>cells = {(0, 3), (1, 1), (1, 2), (1, 3)}, count = 1, is_mine = False\<rparr>
   \<and> knowledge (four_openings ascending) (5, 5)
       = Some \<lparr>cells = {(4, 4), (4, 5), (4, 6), (5, 4), (5, 6), (6, 4), (6, 5), (6, 6)},
               count = 1, is_mine = False\<rparr>
   \<and> dom (knowledge (four_openings ascending)) \<subseteq> {(0, 0), (0, 1), (0, 2), (5, 5)}
   \<and> mines (four_openings ascending) = {}
   \<and> safes (four_openings ascending) = {}
   \<and> (1, 2) \<notin> safes (four_openings ascending)"
proof -
  have stored: "let s = four_openings ascending; t = three_openings ascending in
       knowledge t (0, 0) = Some \<lparr>cells = {(1, 0), (1, 1)}, count = 1, is_mine = False\<rparr>
     \<and> knowledge t (0, 1)
         = Some \<lparr>cells = {(1, 0), (1, 1), (1, 2)}, count = 1, is_mine = False\<rparr>
     \<and> knowledge s (0, 0) = Some \<lparr>cells = {(1, 0), (1, 1)}, count = 1, is_mine = False\<rparr>
     \<and> knowledge s (0, 1)
         = Some \<lparr>cells = {(1, 0), (1, 1), (1, 2)}, count = 1, is_mine = False\<rparr>
     \<and> knowledge s (0, 2)
         = Some \<lparr>cells = {(0, 3), (1, 1), (1, 2), (1, 3)}, count = 1, is_mine = False\<rparr>
     \<and> knowledge s (5, 5)
         = Some \<lparr>cells = {(4, 4), (4, 5), (4, 6), (5, 4), (5, 6), (6, 4), (6, 5), (6, 6)},
                 count = 1, is_mine = False\<rparr>
     \<and> moves_made s = {(0, 0), (0, 1), (0, 2), (5, 5)}
     \<and> mines s = {} \<and> safes s = {}"
    by code_simp
  have "keys_opened (four_openings ascending)"
    unfolding four_openings_def
    by (rule add_knowledge_mark_mine_keys_opened(1)) (rule three_openings_keys)
  then have "dom (knowledge (four_openings ascending)) \<subseteq> moves_made (four_openings ascending)"
    by (simp add: keys_opened_def)
  with stored show ?thesis
    by (simp add: Let_def)
qed

text \<open>
  Claim C2 says that \<^verbatim>\<open>known_mines()\<close> returns, without raising, all the cells of the
  sentence when the count equals their number and is positive.  The method raises
  \<^verbatim>\<open>NotImplementedError\<close> on every sentence, here on \<open>{(0,1)} = 1\<close>.
\<close>

theorem known_mines_raises:
  "known_mines (Sentence {(0, 1)} 1 False) = Inl NotImplementedError
   \<and> known_mines (Sentence {(0, 1)} 1 False) \<noteq> Inr {(0, 1)}"
  by (simp add: known_mines_def)

text \<open>
  Claim C3 says that the sentence stored for an opened cell is over its neighbors clipped
  to \<open>[0, height) \<times> [0, width)\<close>, also when \<open>height \<noteq> width\<close>.  The code clips the row index
  by \<^verbatim>\<open>width\<close> and the column index by \<^verbatim>\<open>height\<close>.  On a fresh board of height 2 and
  width 4, opening \<^verbatim>\<open>(0,2)\<close> with count 1 visits \<^verbatim>\<open>(0,1)\<close> and \<^verbatim>\<open>(1,1)\<close> only and stores
  \<open>{(0,1), (1,1)} = 1\<close>; the neighbors of \<^verbatim>\<open>(0,2)\<close> on that board are
  \<^verbatim>\<open>(0,1)\<close>, \<^verbatim>\<open>(0,3)\<close>, \<^verbatim>\<open>(1,1)\<close>, \<^verbatim>\<open>(1,2)\<close> and \<^verbatim>\<open>(1,3)\<close>.
\<close>

theorem new_sentence_swapped_bounds:
  "let s = add_knowledge ascending (MinesweeperAI 2 4) (0, 2) 1 False in
     scanned (MinesweeperAI 2 4) (0, 2) = [(0, 1), (1, 1)]
   \<and> knowledge s (0, 2) = Some \<lparr>cells = {(0, 1), (1, 1)}, count = 1, is_mine = False\<rparr>
   \<and> knowledge s (0, 2)
       \<noteq> Some \<lparr>cells = {(0, 1), (0, 3), (1, 1), (1, 2), (1, 3)}, count = 1, is_mine = False\<rparr>"
  by code_simp

text \<open>
  Claim C4 says that after \<^verbatim>\<open>add_knowledge(cell, count)\<close> the cell is in \<^verbatim>\<open>moves_made\<close> and
  in \<^verbatim>\<open>safes\<close>, so that \<^verbatim>\<open>moves_made\<close> is a subset of \<^verbatim>\<open>safes\<close>.  The code never marks the
  opened cell safe: on a fresh 8 by 8 agent, opening \<^verbatim>\<open>(0,0)\<close> with count 1 leaves \<^verbatim>\<open>safes\<close>
  empty.
\<close>

theorem opened_cell_not_marked_safe:
  "let s = add_knowledge ascending (MinesweeperAI 8 8) (0, 0) 1 False in
     (0, 0) \<in> moves_made s \<and> (0, 0) \<notin> safes s \<and> safes s = {}
   \<and> \<not> moves_made s \<subseteq> safes s"
  by code_simp

text \<open>
  Claim C5 says that every stored sentence has \<open>0 \<le> count \<le> |cells|\<close> and no cell in
  \<^verbatim>\<open>safes\<close> or \<^verbatim>\<open>mines\<close>.  On an 8 by 8 board, opening \<^verbatim>\<open>(0,0)\<close> with count 0 marks
  \<^verbatim>\<open>(0,1)\<close>, \<^verbatim>\<open>(1,0)\<close> and \<^verbatim>\<open>(1,1)\<close> safe; opening \<^verbatim>\<open>(0,2)\<close> with count 1 then stores a
  sentence of count 1 that contains the safe cells \<^verbatim>\<open>(0,1)\<close> and \<^verbatim>\<open>(1,1)\<close>.  Opening
  \<^verbatim>\<open>(0,0)\<close> with count 3 on a fresh board leaves a stored sentence of count \<open>-2\<close>.
\<close>

theorem sentence_invariant_broken:
  "let s = add_knowledge ascending
             (add_knowledge ascending (MinesweeperAI 8 8) (0, 0) 0 False) (0, 2) 1 False;
       t = add_knowledge ascending (MinesweeperAI 8 8) (0, 0) 3 False;
       u = add_knowledge descending (MinesweeperAI 8 8) (0, 0) 3 False in
     knowledge s (0, 2)
       = Some \<lparr>cells = {(0, 1), (0, 3), (1, 1), (1, 2), (1, 3)}, count = 1, is_mine = False\<rparr>
   \<and> safes s = {(0, 1), (1, 0), (1, 1)}
   \<and> knowledge t (0, 1) = Some \<lparr>cells = {(0, 2), (1, 2)}, count = - 2, is_mine = True\<rparr>
   \<and> knowledge u (1, 1)
       = Some \<lparr>cells = {(0, 2), (1, 2), (2, 0), (2, 1), (2, 2)}, count = - 2, is_mine = True\<rparr>"
  by code_simp

text \<open>
  Claim C6 says that \<^verbatim>\<open>safes\<close> and \<^verbatim>\<open>mines\<close> are disjoint in every reachable state.  On a
  board of height 2 and width 3 with mines at \<^verbatim>\<open>(0,1)\<close> and \<^verbatim>\<open>(1,2)\<close>, opening \<^verbatim>\<open>(0,0)\<close>
  (count 1) and then \<^verbatim>\<open>(0,2)\<close> (count 2) puts one cell in both sets, in either order of
  iteration over the two cells found to be mines.
\<close>

theorem safes_mines_overlap:
  "let s = add_knowledge ascending
             (add_knowledge ascending (MinesweeperAI 2 3) (0, 0) 1 False) (0, 2) 2 False;
       t = add_knowledge descending
             (add_knowledge descending (MinesweeperAI 2 3) (0, 0) 1 False) (0, 2) 2 False in
     (1, 1) \<in> safes s \<inter> mines s \<and> (0, 1) \<in> safes t \<inter> mines t"
  by code_simp

text \<open>
  Claim C7 says that \<^verbatim>\<open>make_random_move()\<close> considers every cell of the board and signals
  that no move is available exactly when every cell is visited or a known mine.  The code
  looks at rows and columns 0 to 6 only.  On the 8 by 8 board with those 49 cells opened
  it returns \<^verbatim>\<open>None\<close>, although \<^verbatim>\<open>(7,0)\<close> is neither visited nor a known mine; on a
  1 by 1 board whose only cell is opened it returns \<^verbatim>\<open>(0,1)\<close>, which is not on the board.
\<close>

theorem random_move_fixed_window:
  "let s = window_opened ascending in
     make_random_move s = None
   \<and> (7, 0) \<notin> moves_made s \<and> (7, 0) \<notin> mines s
   \<and> height s = 8 \<and> width s = 8
   \<and> make_random_move (add_knowledge ascending (MinesweeperAI 1 1) (0, 0) 0 False)
       = Some (0, 1)"
  by code_simp

end
